theory Spec2Isabelle
  imports Main "HOL-Library.Multiset" "HOL-Library.Sublist"
begin

section \<open>Data model\<close>

text \<open>
  The cleaner works on the EC2 snapshot records of the AWS SDK. Of \<^verbatim>\<open>types.Snapshot\<close> the
  code reads three fields, each a Go pointer: \<^verbatim>\<open>SnapshotId *string\<close>,
  \<^verbatim>\<open>StartTime *time.Time\<close> and \<^verbatim>\<open>VolumeId *string\<close>. A nil pointer is \<open>None\<close>.
  A \<^verbatim>\<open>time.Time\<close> is read only through \<^verbatim>\<open>Before\<close>, \<^verbatim>\<open>After\<close> and \<^verbatim>\<open>Format\<close>; it is
  modelled as the instant it denotes, an integer on the time line.
\<close>

type_synonym time = int

record Snapshot =
  SnapshotId :: "string option"
  StartTime :: "time option"
  VolumeId :: "string option"

text \<open>
  The logger is a process-wide zap logger. A call to it is kept as a value: the level, the
  format string or message, and the arguments as they are passed (no formatting is done).
\<close>

datatype level = DebugLevel | InfoLevel | WarnLevel | ErrorLevel

datatype arg =
    IntArg int
  | StrArg string
  | PtrArg "string option"
  | ErrArg string
  | FormatArg time string

datatype log_entry = Log level string "arg list"

text \<open>The run-time panics the Go code of the two variants can raise.\<close>

datatype panic = NilPointerDereference | SliceBoundsOutOfRange

text \<open>
  Go slice expressions \<^verbatim>\<open>s[lo:]\<close> and \<^verbatim>\<open>s[:hi]\<close> on a slice whose capacity is its
  length: an index below zero or beyond the length panics. The counts are Go \<^verbatim>\<open>int\<close>s; they
  are only compared and used as slice bounds, never computed with, so they are integers here.
\<close>

definition slice_from :: "'a list \<Rightarrow> int \<Rightarrow> panic + 'a list" where
  "slice_from s lo =
     (if lo < 0 \<or> int (length s) < lo then Inl SliceBoundsOutOfRange
      else Inr (drop (nat lo) s))"

definition slice_to :: "'a list \<Rightarrow> int \<Rightarrow> panic + 'a list" where
  "slice_to s hi =
     (if hi < 0 \<or> int (length s) < hi then Inl SliceBoundsOutOfRange
      else Inr (take (nat hi) s))"

section \<open>Retention resolver\<close>

text \<open>
  \<^verbatim>\<open>getToDeleteSnapshots\<close> of \<^verbatim>\<open>services/snapshots.go\<close>. The result is the list of log
  calls made and either a panic or the returned slice. The two counts are \<^verbatim>\<open>*int\<close>:
  \<open>None\<close> is the nil pointer.
\<close>

definition getToDeleteSnapshots ::
  "Snapshot list \<Rightarrow> int option \<Rightarrow> int option \<Rightarrow> log_entry list \<times> (panic + Snapshot list)" where
  "getToDeleteSnapshots snapshotList deleteCount keepCount =
     (let n = int (length snapshotList) in
      if n = 0 then ([], Inr [])
      else case (deleteCount, keepCount) of
        (Some d, Some k) \<Rightarrow>
          ([Log ErrorLevel
              ''Both deleteCount (%d) and keepCount (%d) are set. Only one parameter should be used.''
              [IntArg d, IntArg k]], Inr [])
      | (_, Some k) \<Rightarrow>
          if k < 0 then ([Log ErrorLevel ''Keep count must be greater than 0'' []], Inr [])
          else if k = 0 then ([], Inr snapshotList)
          else if k \<ge> n then ([], Inr [])
          else ([], slice_from snapshotList k)
      | (Some d, None) \<Rightarrow>
          if d \<le> 0 then ([], Inr [])
          else if d \<ge> n then ([], Inr snapshotList)
          else ([], slice_to snapshotList d)
      | (None, None) \<Rightarrow> ([], Inr []))"

text \<open>
  \<^verbatim>\<open>getToDeleteSnapshots\<close> of the second variant of the file (\<^verbatim>\<open>unnamed/part_000\<close>). It has
  no check for a negative keep count, and it sends a negative delete count to the
  "delete all" branch.
\<close>

definition getToDeleteSnapshots_part000 ::
  "Snapshot list \<Rightarrow> int option \<Rightarrow> int option \<Rightarrow> log_entry list \<times> (panic + Snapshot list)" where
  "getToDeleteSnapshots_part000 snapshotList deleteCount keepCount =
     (let n = int (length snapshotList) in
      if n = 0 then ([], Inr [])
      else case (deleteCount, keepCount) of
        (Some d, Some k) \<Rightarrow>
          ([Log ErrorLevel
              ''Both deleteCount (%d) and keepCount (%d) are set. Only one parameter should be used.''
              [IntArg d, IntArg k]], Inr [])
      | (_, Some k) \<Rightarrow>
          if k \<ge> n then ([], Inr [])
          else ([], slice_from snapshotList k)
      | (Some d, None) \<Rightarrow>
          if d = 0 then ([], Inr [])
          else if d \<ge> n \<or> d < 0 then ([], Inr snapshotList)
          else ([], slice_to snapshotList d)
      | (None, None) \<Rightarrow> ([], Inr []))"

section \<open>Ordering policy\<close>

text \<open>
  The closure handed to \<^verbatim>\<open>sort.Slice\<close> in \<^verbatim>\<open>sortByCreatedTime\<close> of
  \<^verbatim>\<open>services/snapshots.go\<close>, as a function of the two records at the indices it is
  called with. Any \<^verbatim>\<open>order\<close> other than \<^verbatim>\<open>"desc"\<close> takes the ascending branch.
\<close>

definition lessByCreatedTime :: "string \<Rightarrow> Snapshot \<Rightarrow> Snapshot \<Rightarrow> bool" where
  "lessByCreatedTime order si sj =
     (let ti = StartTime si; tj = StartTime sj in
      if order = ''desc'' then
        (case ti of None \<Rightarrow> False
         | Some a \<Rightarrow> (case tj of None \<Rightarrow> True | Some b \<Rightarrow> a > b))
      else
        (case ti of None \<Rightarrow> False
         | Some a \<Rightarrow> (case tj of None \<Rightarrow> True | Some b \<Rightarrow> a < b)))"

text \<open>
  \<^verbatim>\<open>sort.Slice\<close> belongs to the Go standard library (Go 1.22 is the toolchain of the
  Dockerfile). On a slice of at most twelve elements it runs \<^verbatim>\<open>insertionSortLessFunc\<close>:
  \<^verbatim>\<open>for i := a+1; i < b; i++ { for j := i; j > a && less(j, j-1); j-- { swap(j, j-1) } }\<close>.
  \<open>insertLess\<close> is the inner loop; the part of the slice already sorted is held back to
  front, so that its head is the element at \<^verbatim>\<open>j-1\<close>.
\<close>

fun insertLess :: "('a \<Rightarrow> 'a \<Rightarrow> bool) \<Rightarrow> 'a \<Rightarrow> 'a list \<Rightarrow> 'a list" where
  "insertLess lt x [] = [x]"
| "insertLess lt x (y # ys) =
     (if lt x y then y # insertLess lt x ys else x # y # ys)"

definition insertionSortLessFunc :: "('a \<Rightarrow> 'a \<Rightarrow> bool) \<Rightarrow> 'a list \<Rightarrow> 'a list" where
  "insertionSortLessFunc lt xs = rev (fold (insertLess lt) xs [])"

text \<open>
  On a slice of more than twelve elements \<^verbatim>\<open>sort.Slice\<close> runs the library's
  pattern-defeating quicksort, which is not stable and is not part of this repository: it
  is the parameter \<open>pdqsort\<close> of \<open>sort_Slice\<close> and of everything that sorts. What the
  library promises of every result is that it is a rearrangement of the input in which no
  later element is \<^verbatim>\<open>less\<close> than an earlier one; \<open>sort_Slice_result\<close> says so, and the
  general statements on ordering are about every such result.
\<close>

definition sort_Slice_result :: "('a \<Rightarrow> 'a \<Rightarrow> bool) \<Rightarrow> 'a list \<Rightarrow> 'a list \<Rightarrow> bool" where
  "sort_Slice_result lt xs ys \<longleftrightarrow>
     mset ys = mset xs \<and> sorted_wrt (\<lambda>a b. \<not> lt b a) ys"

definition sort_Slice ::
  "(('a \<Rightarrow> 'a \<Rightarrow> bool) \<Rightarrow> 'a list \<Rightarrow> 'a list) \<Rightarrow> ('a \<Rightarrow> 'a \<Rightarrow> bool) \<Rightarrow> 'a list \<Rightarrow> 'a list" where
  "sort_Slice pdqsort lt xs =
     (if length xs \<le> 12 then insertionSortLessFunc lt xs else pdqsort lt xs)"

definition sortByCreatedTime ::
  "((Snapshot \<Rightarrow> Snapshot \<Rightarrow> bool) \<Rightarrow> Snapshot list \<Rightarrow> Snapshot list) \<Rightarrow>
   Snapshot list \<Rightarrow> string \<Rightarrow> Snapshot list" where
  "sortByCreatedTime pdqsort snapshotList order =
     sort_Slice pdqsort (lessByCreatedTime order) snapshotList"

definition hasStartTime :: "Snapshot \<Rightarrow> bool" where
  "hasStartTime s \<longleftrightarrow> StartTime s \<noteq> None"

definition startTimeOf :: "Snapshot \<Rightarrow> time" where
  "startTimeOf s = the (StartTime s)"

text \<open>
  The closure of the second variant (\<^verbatim>\<open>unnamed/part_000\<close>) calls \<^verbatim>\<open>Before\<close> and
  \<^verbatim>\<open>After\<close> through the two \<^verbatim>\<open>StartTime\<close> pointers without a nil check: either pointer
  being nil is a nil dereference.
\<close>

definition lessByCreatedTime_part000 :: "string \<Rightarrow> Snapshot \<Rightarrow> Snapshot \<Rightarrow> panic + bool" where
  "lessByCreatedTime_part000 order si sj =
     (case (StartTime si, StartTime sj) of
        (Some a, Some b) \<Rightarrow> if order = ''desc'' then Inr (a > b) else Inr (a < b)
      | _ \<Rightarrow> Inl NilPointerDereference)"

section \<open>Cleanup orchestrator\<close>

text \<open>
  The EC2 client is the external collaborator; \<^verbatim>\<open>CleanupSnapshots\<close> takes the SDK's
  concrete \<^verbatim>\<open>*ec2.Client\<close>. Its \<^verbatim>\<open>DescribeSnapshots\<close> is called with the name and the
  values of the one tag filter. A call of the SDK either fails, and returns a nil output
  with the error, or succeeds, and returns the output with a nil error: the result is the
  error (\<open>Inl\<close>) or the \<^verbatim>\<open>Snapshots\<close> field of the output (\<open>Inr\<close>). \<^verbatim>\<open>DeleteSnapshot\<close> is
  called with the snapshot id pointer and returns its error.
\<close>

record client =
  DescribeSnapshots :: "string \<Rightarrow> string list \<Rightarrow> string + Snapshot list"
  DeleteSnapshot :: "string option \<Rightarrow> string option"

text \<open>
  The Go pair \<^verbatim>\<open>out, err := client.DescribeSnapshots(...)\<close>: the output pointer (\<open>None\<close> is
  nil) reduced to its \<^verbatim>\<open>Snapshots\<close> field, and the error.
\<close>

definition callDescribeSnapshots ::
  "client \<Rightarrow> string \<Rightarrow> string list \<Rightarrow> Snapshot list option \<times> string option" where
  "callDescribeSnapshots c name values =
     (case DescribeSnapshots c name values of
        Inl e \<Rightarrow> (None, Some e)
      | Inr snapshots \<Rightarrow> (Some snapshots, None))"

text \<open>
  What a run does to the outside world: the log calls and the calls of the deletion
  executor, in order; and how the call of \<^verbatim>\<open>CleanupSnapshots\<close> ends.
\<close>

datatype event = Logged log_entry | DeleteSnapshotCall "string option"

datatype outcome = Returned | Exited int | Panicked panic

text \<open>
  \<^verbatim>\<open>main\<close> calls \<^verbatim>\<open>CleanupSnapshots\<close> as its last statement. A Go process whose \<^verbatim>\<open>main\<close>
  returns exits with status 0, \<^verbatim>\<open>os.Exit(c)\<close> exits with \<^verbatim>\<open>c\<close>, and a panic that nothing
  recovers exits with status 2.
\<close>

fun exit_status :: "outcome \<Rightarrow> int" where
  "exit_status Returned = 0"
| "exit_status (Exited c) = c"
| "exit_status (Panicked p) = 2"

definition aws_ToString :: "string option \<Rightarrow> string" where
  "aws_ToString p = (case p of None \<Rightarrow> [] | Some v \<Rightarrow> v)"

definition formatStartTime :: "Snapshot \<Rightarrow> arg" where
  "formatStartTime snap =
     (case StartTime snap of None \<Rightarrow> StrArg ''-''
      | Some t \<Rightarrow> FormatArg t ''2006-01-02 15:04:05'')"

definition printSnapShotsList :: "Snapshot list \<Rightarrow> string \<Rightarrow> event list" where
  "printSnapShotsList snapshotList message =
     map (\<lambda>snap. Logged (Log InfoLevel ''%s SnapshotID=%s, StartTime=%s, VolumeId=%s''
            [StrArg message, StrArg (aws_ToString (SnapshotId snap)), formatStartTime snap,
             StrArg (aws_ToString (VolumeId snap))]))
       snapshotList"

text \<open>
  \<^verbatim>\<open>deleteSnapShot\<close>: one call of the executor (under a timeout of ten seconds, whose expiry
  is one of the errors the call can return). After a successful call the id pointer is
  dereferenced for the log line.
\<close>

definition deleteSnapShot :: "Snapshot \<Rightarrow> client \<Rightarrow> event list \<times> (panic + string option)" where
  "deleteSnapShot snap c =
     (case DeleteSnapshot c (SnapshotId snap) of
        Some err \<Rightarrow>
          ([DeleteSnapshotCall (SnapshotId snap),
            Logged (Log ErrorLevel ''Failed to delete snapshot %v: %v''
                      [PtrArg (SnapshotId snap), ErrArg err])],
           Inr (Some err))
      | None \<Rightarrow>
          (case SnapshotId snap of
             None \<Rightarrow> ([DeleteSnapshotCall (SnapshotId snap)], Inl NilPointerDereference)
           | Some sid \<Rightarrow>
               ([DeleteSnapshotCall (SnapshotId snap),
                 Logged (Log InfoLevel ''Deleted snapshot %s (%s)''
                           [StrArg sid, formatStartTime snap])],
                Inr None)))"

text \<open>The loop \<^verbatim>\<open>for _, snap := range removeSnapShot { deleteSnapShot(snap, client) }\<close>.\<close>

fun deleteEach :: "client \<Rightarrow> Snapshot list \<Rightarrow> event list \<times> outcome" where
  "deleteEach c [] = ([], Returned)"
| "deleteEach c (snap # rest) =
     (case deleteSnapShot snap c of
        (ev, Inl p) \<Rightarrow> (ev, Panicked p)
      | (ev, Inr err) \<Rightarrow> (case deleteEach c rest of (ev', out) \<Rightarrow> (ev @ ev', out)))"

text \<open>
  \<^verbatim>\<open>CleanupSnapshots\<close> of \<^verbatim>\<open>services/snapshots.go\<close>. After a fetch error the code logs
  and goes on to read \<^verbatim>\<open>out.Snapshots\<close>; \<^verbatim>\<open>out\<close> is nil then, and the read panics.
\<close>

definition CleanupSnapshots ::
  "((Snapshot \<Rightarrow> Snapshot \<Rightarrow> bool) \<Rightarrow> Snapshot list \<Rightarrow> Snapshot list) \<Rightarrow>
   client \<Rightarrow> string \<Rightarrow> string \<Rightarrow> int option \<Rightarrow> int option \<Rightarrow> string \<Rightarrow> event list \<times> outcome" where
  "CleanupSnapshots pdqsort c tagKey tagValue deleteCount keepCount sortBy =
     (case callDescribeSnapshots c (''tag:'' @ tagKey) [tagValue] of (out, err) \<Rightarrow>
       (let ev0 = (case err of None \<Rightarrow> []
                   | Some e \<Rightarrow> [Logged (Log ErrorLevel ''Error in cleanupSnapshots: '' [ErrArg e])])
        in (case out of
          None \<Rightarrow> (ev0, Panicked NilPointerDereference)
        | Some snapshots \<Rightarrow>
           (if length snapshots = 0 then
              (ev0 @ [Logged (Log InfoLevel ''No snapshots found for given tag filter'' [])],
               Returned)
            else
              (let sorted =
                 (if sortBy = ''created_time_asc'' then
                    Some (sortByCreatedTime pdqsort snapshots ''asc'', [])
                  else if sortBy = ''created_time_desc'' then
                    (let s = sortByCreatedTime pdqsort snapshots ''desc''
                     in Some (s, printSnapShotsList s ''Sort by created time desc: ''))
                  else None)
               in (case sorted of
                 None \<Rightarrow>
                   (ev0 @ [Logged (Log ErrorLevel ''Not support that sortBy!'' [])], Returned)
               | Some (removeSnapShot, ev1) \<Rightarrow>
                   (case getToDeleteSnapshots removeSnapShot deleteCount keepCount of
                      (lg, Inl p) \<Rightarrow> (ev0 @ ev1 @ map Logged lg, Panicked p)
                    | (lg, Inr toDelete) \<Rightarrow>
                       (case deleteEach c toDelete of (ev3, res) \<Rightarrow>
                          (ev0 @ ev1 @ map Logged lg
                             @ printSnapShotsList toDelete ''Delete Snapshot: '' @ ev3,
                           res)))))))))"

definition deleteCalls :: "event list \<Rightarrow> string option list" where
  "deleteCalls evs = concat (map (\<lambda>e. case e of DeleteSnapshotCall i \<Rightarrow> [i] | Logged l \<Rightarrow> []) evs)"

section \<open>The second variant of the orchestrator\<close>

text \<open>
  \<^verbatim>\<open>unnamed/part_000\<close> holds a second variant of the same file. Its
  \<^verbatim>\<open>printSnapShotsList\<close> formats \<^verbatim>\<open>StartTime\<close> without a nil check: the arguments of
  the log call are evaluated first, so a record without a creation time panics before its
  line is logged.
\<close>

fun printSnapShotsList_part000 :: "Snapshot list \<Rightarrow> string \<Rightarrow> event list \<times> panic option" where
  "printSnapShotsList_part000 [] message = ([], None)"
| "printSnapShotsList_part000 (snap # rest) message =
     (case StartTime snap of
        None \<Rightarrow> ([], Some NilPointerDereference)
      | Some t \<Rightarrow>
          (case printSnapShotsList_part000 rest message of (ev, p) \<Rightarrow>
             (Logged (Log InfoLevel ''%s SnapshotID=%s, StartTime=%s, VolumeId=%s''
                [StrArg message, StrArg (aws_ToString (SnapshotId snap)),
                 FormatArg t ''2006-01-02 15:04:05'',
                 StrArg (aws_ToString (VolumeId snap))]) # ev, p)))"

text \<open>
  The insertion sort of \<^verbatim>\<open>sort.Slice\<close> under a closure that can panic: the first
  comparison that panics ends the sort. The quicksort of the longer slices is again a
  parameter.
\<close>

fun insertLess_part000 ::
  "('a \<Rightarrow> 'a \<Rightarrow> panic + bool) \<Rightarrow> 'a \<Rightarrow> 'a list \<Rightarrow> panic + 'a list" where
  "insertLess_part000 lt x [] = Inr [x]"
| "insertLess_part000 lt x (y # ys) =
     (case lt x y of
        Inl p \<Rightarrow> Inl p
      | Inr b \<Rightarrow>
          (if b then
             (case insertLess_part000 lt x ys of Inl p \<Rightarrow> Inl p | Inr r \<Rightarrow> Inr (y # r))
           else Inr (x # y # ys)))"

fun insertionSort_part000 ::
  "('a \<Rightarrow> 'a \<Rightarrow> panic + bool) \<Rightarrow> 'a list \<Rightarrow> 'a list \<Rightarrow> panic + 'a list" where
  "insertionSort_part000 lt acc [] = Inr (rev acc)"
| "insertionSort_part000 lt acc (x # xs) =
     (case insertLess_part000 lt x acc of
        Inl p \<Rightarrow> Inl p
      | Inr acc' \<Rightarrow> insertionSort_part000 lt acc' xs)"

definition sort_Slice_part000 ::
  "(('a \<Rightarrow> 'a \<Rightarrow> panic + bool) \<Rightarrow> 'a list \<Rightarrow> panic + 'a list) \<Rightarrow>
   ('a \<Rightarrow> 'a \<Rightarrow> panic + bool) \<Rightarrow> 'a list \<Rightarrow> panic + 'a list" where
  "sort_Slice_part000 pdqsort lt xs =
     (if length xs \<le> 12 then insertionSort_part000 lt [] xs else pdqsort lt xs)"

definition sortByCreatedTime_part000 ::
  "((Snapshot \<Rightarrow> Snapshot \<Rightarrow> panic + bool) \<Rightarrow> Snapshot list \<Rightarrow> panic + Snapshot list) \<Rightarrow>
   Snapshot list \<Rightarrow> string \<Rightarrow> panic + Snapshot list" where
  "sortByCreatedTime_part000 pdqsort snapshotList order =
     sort_Slice_part000 pdqsort (lessByCreatedTime_part000 order) snapshotList"

text \<open>
  In this variant the body of \<^verbatim>\<open>deleteSnapShot\<close> is commented out: it returns nil and the
  executor is not called. The default branch of the switch calls \<^verbatim>\<open>os.Exit(1)\<close>.
\<close>

definition deleteSnapShot_part000 :: "Snapshot \<Rightarrow> client \<Rightarrow> event list \<times> (panic + string option)" where
  "deleteSnapShot_part000 snap c = ([], Inr None)"

fun deleteEach_part000 :: "client \<Rightarrow> Snapshot list \<Rightarrow> event list \<times> outcome" where
  "deleteEach_part000 c [] = ([], Returned)"
| "deleteEach_part000 c (snap # rest) =
     (case deleteSnapShot_part000 snap c of
        (ev, Inl p) \<Rightarrow> (ev, Panicked p)
      | (ev, Inr err) \<Rightarrow>
          (case deleteEach_part000 c rest of (ev', res) \<Rightarrow> (ev @ ev', res)))"

text \<open>
  The statements of the second variant's \<^verbatim>\<open>CleanupSnapshots\<close> that follow the switch: the
  debug line, the selection, the listing of the delete-set and the loop. They are shared by
  the two branches of the switch that go on.
\<close>

definition selectAndDelete_part000 ::
  "client \<Rightarrow> Snapshot list \<Rightarrow> int option \<Rightarrow> int option \<Rightarrow> event list \<times> outcome" where
  "selectAndDelete_part000 c removeSnapShot deleteCount keepCount =
     (case getToDeleteSnapshots_part000 removeSnapShot deleteCount keepCount of
        (lg, Inl p) \<Rightarrow>
          (Logged (Log DebugLevel ''getToDeleteSnapshots'' []) # map Logged lg, Panicked p)
      | (lg, Inr toDelete) \<Rightarrow>
          (case printSnapShotsList_part000 toDelete ''Delete Snapshot: '' of
             (ev2, Some p) \<Rightarrow>
               (Logged (Log DebugLevel ''getToDeleteSnapshots'' []) # map Logged lg @ ev2,
                Panicked p)
           | (ev2, None) \<Rightarrow>
               (case deleteEach_part000 c toDelete of (ev3, res) \<Rightarrow>
                  (Logged (Log DebugLevel ''getToDeleteSnapshots'' []) # map Logged lg
                     @ ev2 @ ev3, res))))"

definition CleanupSnapshots_part000 ::
  "((Snapshot \<Rightarrow> Snapshot \<Rightarrow> panic + bool) \<Rightarrow> Snapshot list \<Rightarrow> panic + Snapshot list) \<Rightarrow>
   client \<Rightarrow> string \<Rightarrow> string \<Rightarrow> int option \<Rightarrow> int option \<Rightarrow> string \<Rightarrow> event list \<times> outcome" where
  "CleanupSnapshots_part000 pdqsort c tagKey tagValue deleteCount keepCount sortBy =
     (case callDescribeSnapshots c (''tag:'' @ tagKey) [tagValue] of (out, err) \<Rightarrow>
       (let ev0 = (case err of None \<Rightarrow> []
                   | Some e \<Rightarrow> [Logged (Log ErrorLevel ''Error in cleanupSnapshots: '' [ErrArg e])])
        in (case out of
          None \<Rightarrow> (ev0, Panicked NilPointerDereference)
        | Some snapshots \<Rightarrow>
           (if length snapshots = 0 then
              (ev0 @ [Logged (Log InfoLevel ''No snapshots found for given tag filter'' [])],
               Returned)
            else if sortBy = ''created_time_asc'' then
              (case sortByCreatedTime_part000 pdqsort snapshots ''asc'' of
                 Inl p \<Rightarrow> (ev0, Panicked p)
               | Inr removeSnapShot \<Rightarrow>
                   (case selectAndDelete_part000 c removeSnapShot deleteCount keepCount of
                      (ev, res) \<Rightarrow> (ev0 @ ev, res)))
            else if sortBy = ''created_time_desc'' then
              (case sortByCreatedTime_part000 pdqsort snapshots ''desc'' of
                 Inl p \<Rightarrow> (ev0, Panicked p)
               | Inr removeSnapShot \<Rightarrow>
                   (case printSnapShotsList_part000 removeSnapShot ''Sort by created time desc: '' of
                      (ev1, Some p) \<Rightarrow> (ev0 @ ev1, Panicked p)
                    | (ev1, None) \<Rightarrow>
                        (case selectAndDelete_part000 c removeSnapShot deleteCount keepCount of
                           (ev, res) \<Rightarrow> (ev0 @ ev1 @ ev, res))))
            else
              (ev0 @ [Logged (Log ErrorLevel ''Not support that sortBy!'' [])], Exited 1)))))"

section \<open>Example inventory\<close>

text \<open>
  Three records with the creation times 3, 1 and 2, a record with the creation time of
  \<open>snapS2\<close> under another id, and a record without a creation time.
\<close>

definition snapS1 :: Snapshot where
  "snapS1 = \<lparr>SnapshotId = Some ''S1'', StartTime = Some 3, VolumeId = Some ''vol-1''\<rparr>"

definition snapS2 :: Snapshot where
  "snapS2 = \<lparr>SnapshotId = Some ''S2'', StartTime = Some 1, VolumeId = Some ''vol-1''\<rparr>"

definition snapS3 :: Snapshot where
  "snapS3 = \<lparr>SnapshotId = Some ''S3'', StartTime = Some 2, VolumeId = Some ''vol-2''\<rparr>"

definition snapS4 :: Snapshot where
  "snapS4 = \<lparr>SnapshotId = Some ''S4'', StartTime = Some 1, VolumeId = Some ''vol-2''\<rparr>"

definition snapS5 :: Snapshot where
  "snapS5 = \<lparr>SnapshotId = Some ''S5'', StartTime = None, VolumeId = None\<rparr>"

text \<open>
  Clients: one whose fetch succeeds with three records, one whose fetch finds nothing and
  one whose fetch fails. Every deletion succeeds.
\<close>

definition inventoryClient :: client where
  "inventoryClient =
     \<lparr>DescribeSnapshots = (\<lambda>name values. Inr [snapS1, snapS2, snapS3]),
      DeleteSnapshot = (\<lambda>sid. None)\<rparr>"

definition emptyClient :: client where
  "emptyClient =
     \<lparr>DescribeSnapshots = (\<lambda>name values. Inr []),
      DeleteSnapshot = (\<lambda>sid. None)\<rparr>"

definition failedFetchClient :: client where
  "failedFetchClient =
     \<lparr>DescribeSnapshots = (\<lambda>name values. Inl ''RequestError''),
      DeleteSnapshot = (\<lambda>sid. None)\<rparr>"

section \<open>Properties of the retention resolver\<close>

lemmas snaps = snapS1_def snapS2_def snapS3_def snapS4_def snapS5_def

lemma drop_as_positions: "drop m xs = map ((!) xs) [m..<length xs]"
proof -
  have "drop m xs = drop m (map ((!) xs) [0..<length xs])" by (simp add: map_nth)
  also have "\<dots> = map ((!) xs) [m..<length xs]" by (simp add: drop_map)
  finally show ?thesis .
qed

lemma take_as_positions: "m \<le> length xs \<Longrightarrow> take m xs = map ((!) xs) [0..<m]"
proof -
  assume m: "m \<le> length xs"
  have "take m xs = take m (map ((!) xs) [0..<length xs])" by (simp add: map_nth)
  also have "\<dots> = map ((!) xs) [0..<m]" using m by (simp add: take_map min_def)
  finally show ?thesis .
qed

text \<open>
  C1. With only the keep count set: a keep count of 0 returns the whole list in its order;
  a keep count of at least the length returns the empty slice; a keep count strictly
  between returns exactly the records at the positions \<open>k, \<dots>, n - 1\<close>, in order. No
  log call is made and nothing panics. The list need not be sorted for this to hold.
\<close>

theorem getToDeleteSnapshots_keepCount:
  "(k = 0 \<longrightarrow> getToDeleteSnapshots xs None (Some k) = ([], Inr xs)) \<and>
   (int (length xs) \<le> k \<longrightarrow> getToDeleteSnapshots xs None (Some k) = ([], Inr [])) \<and>
   (0 < k \<and> k < int (length xs) \<longrightarrow>
      getToDeleteSnapshots xs None (Some k) = ([], Inr (map ((!) xs) [nat k..<length xs])))"
  by (auto simp: getToDeleteSnapshots_def slice_from_def Let_def drop_as_positions)

text \<open>
  The three cases of C1 on the list \<open>[S2, S3, S1]\<close> with the keep counts 0, 3 and 1.
\<close>

theorem getToDeleteSnapshots_keepCount_witness:
  "getToDeleteSnapshots [snapS2, snapS3, snapS1] None (Some 0) = ([], Inr [snapS2, snapS3, snapS1]) \<and>
   getToDeleteSnapshots [snapS2, snapS3, snapS1] None (Some 3) = ([], Inr []) \<and>
   getToDeleteSnapshots [snapS2, snapS3, snapS1] None (Some 1) = ([], Inr [snapS3, snapS1])"
  using getToDeleteSnapshots_keepCount[of 0 "[snapS2, snapS3, snapS1]"]
    getToDeleteSnapshots_keepCount[of 3 "[snapS2, snapS3, snapS1]"]
    getToDeleteSnapshots_keepCount[of 1 "[snapS2, snapS3, snapS1]"]
  by (simp add: upt_rec)

text \<open>
  With only the delete count set, \<^verbatim>\<open>services/snapshots.go\<close> does this: a delete count of
  0 or below returns the empty slice; a delete count of at least the length returns the
  whole list; a delete count strictly between returns exactly the first \<open>d\<close> records, in
  order.
\<close>

lemma getToDeleteSnapshots_deleteCount:
  "(d \<le> 0 \<longrightarrow> getToDeleteSnapshots xs (Some d) None = ([], Inr [])) \<and>
   (int (length xs) \<le> d \<longrightarrow> getToDeleteSnapshots xs (Some d) None = ([], Inr xs)) \<and>
   (0 < d \<and> d < int (length xs) \<longrightarrow>
      getToDeleteSnapshots xs (Some d) None = ([], Inr (map ((!) xs) [0..<nat d])))"
proof (cases xs)
  case Nil
  then show ?thesis by (simp add: getToDeleteSnapshots_def)
next
  case (Cons x rest)
  have "take (nat d) xs = map ((!) xs) [0..<nat d]" if "d < int (length xs)"
    using that by (intro take_as_positions) simp
  then show ?thesis using Cons
    by (auto simp: getToDeleteSnapshots_def slice_to_def Let_def)
qed

text \<open>
  C4. On a non-empty list, with both counts set to any integers, the result is the empty
  slice and one error is logged that names both counts: neither directive is followed.
\<close>

theorem getToDeleteSnapshots_both_set:
  "xs \<noteq> [] \<Longrightarrow>
   getToDeleteSnapshots xs (Some d) (Some k) =
     ([Log ErrorLevel
         ''Both deleteCount (%d) and keepCount (%d) are set. Only one parameter should be used.''
         [IntArg d, IntArg k]], Inr [])"
  by (simp add: getToDeleteSnapshots_def)

text \<open>
  C4 on one record with the delete count 3 and the keep count 2.
\<close>

theorem getToDeleteSnapshots_both_set_witness:
  "[snapS1] \<noteq> [] \<and>
   getToDeleteSnapshots [snapS1] (Some 3) (Some 2) =
     ([Log ErrorLevel
         ''Both deleteCount (%d) and keepCount (%d) are set. Only one parameter should be used.''
         [IntArg 3, IntArg 2]], Inr [])"
proof -
  have h: "[snapS1] \<noteq> []" by simp
  show ?thesis using h getToDeleteSnapshots_both_set[OF h, of 3 2] by simp
qed

text \<open>
  On a non-empty list, with only the keep count set and negative, \<^verbatim>\<open>services/snapshots.go\<close>
  returns the empty slice and logs one error; the slice expression is not reached, so
  nothing panics.
\<close>

lemma getToDeleteSnapshots_negative_keepCount:
  "xs \<noteq> [] \<Longrightarrow> k < 0 \<Longrightarrow>
   getToDeleteSnapshots xs None (Some k) =
     ([Log ErrorLevel ''Keep count must be greater than 0'' []], Inr [])"
  by (simp add: getToDeleteSnapshots_def)

lemma getToDeleteSnapshots_cases:
  "\<exists>lg ys. getToDeleteSnapshots xs d k = (lg, Inr ys) \<and> (\<exists>m. ys = take m xs \<or> ys = drop m xs)"
proof -
  have t0: "[] = take 0 xs" by simp
  have d0: "xs = drop 0 xs" by simp
  show ?thesis
    unfolding getToDeleteSnapshots_def slice_from_def slice_to_def Let_def
    by (auto split: option.splits intro: t0 d0)
qed

text \<open>
  C10. For every list and every setting of the two counts the call returns (it does not
  panic), and what it returns is a prefix or a suffix of the input (the empty slice and the
  whole list among them): each returned record occurs in the input, with at most the
  multiplicity it has there, in the input's order, and the result is no longer than the
  input.
\<close>

theorem getToDeleteSnapshots_contiguous:
  "\<exists>lg ys. getToDeleteSnapshots xs d k = (lg, Inr ys) \<and>
     (\<exists>m. ys = take m xs \<or> ys = drop m xs) \<and>
     set ys \<subseteq> set xs \<and> mset ys \<subseteq># mset xs \<and> subseq ys xs \<and> length ys \<le> length xs"
proof -
  obtain lg ys m where r: "getToDeleteSnapshots xs d k = (lg, Inr ys)"
    and s: "ys = take m xs \<or> ys = drop m xs"
    using getToDeleteSnapshots_cases by blast
  from s have "subseq ys xs" by auto
  moreover have "mset ys \<subseteq># mset xs"
  proof -
    have "mset (take m xs) + mset (drop m xs) = mset xs"
      by (simp flip: mset_append)
    then have "mset (take m xs) \<subseteq># mset xs" and "mset (drop m xs) \<subseteq># mset xs"
      by (metis mset_subset_eq_add_left, metis mset_subset_eq_add_right)
    with s show ?thesis by auto
  qed
  moreover from s have "set ys \<subseteq> set xs" by (auto dest: in_set_takeD in_set_dropD)
  moreover from s have "length ys \<le> length xs" by auto
  ultimately show ?thesis using r s by blast
qed

lemma getToDeleteSnapshots_part000_cases:
  assumes "getToDeleteSnapshots_part000 xs d k = (lg, Inr ys)"
  shows "\<exists>m. ys = take m xs \<or> ys = drop m xs"
proof -
  have e: "\<exists>m. [] = take m zs \<or> [] = drop m zs" for zs :: "Snapshot list"
    by (rule exI[of _ 0]) simp
  have w: "\<exists>m. zs = take m zs \<or> zs = drop m zs" for zs :: "Snapshot list"
    by (rule exI[of _ 0]) simp
  show ?thesis
    using assms
    unfolding getToDeleteSnapshots_part000_def slice_from_def slice_to_def Let_def
    by (auto simp: e w split: option.splits if_splits)
qed

lemma getToDeleteSnapshots_part000_both_set:
  "xs \<noteq> [] \<Longrightarrow>
   getToDeleteSnapshots_part000 xs (Some d) (Some k) =
     ([Log ErrorLevel
         ''Both deleteCount (%d) and keepCount (%d) are set. Only one parameter should be used.''
         [IntArg d, IntArg k]], Inr [])"
  by (simp add: getToDeleteSnapshots_part000_def)

lemma getToDeleteSnapshots_part000_negative_keepCount:
  "xs \<noteq> [] \<Longrightarrow> k < 0 \<Longrightarrow>
   getToDeleteSnapshots_part000 xs None (Some k) = ([], Inl SliceBoundsOutOfRange)"
  by (simp add: getToDeleteSnapshots_part000_def slice_from_def)

lemma getToDeleteSnapshots_part000_negative_deleteCount:
  "xs \<noteq> [] \<Longrightarrow> d < 0 \<Longrightarrow>
   getToDeleteSnapshots_part000 xs (Some d) None = ([], Inr xs)"
  by (simp add: getToDeleteSnapshots_part000_def)

text \<open>
  C2. The second variant breaks the claim on a negative delete count: on \<open>[S2, S3, S1]\<close>
  with the delete count -1 and no keep count it takes its "delete all" branch and returns
  the whole list, where the claim, and \<^verbatim>\<open>services/snapshots.go\<close> on the same input, give
  the empty slice.
\<close>

theorem getToDeleteSnapshots_part000_negative_deleteCount_deletes_all:
  "getToDeleteSnapshots_part000 [snapS2, snapS3, snapS1] (Some (-1)) None =
     ([], Inr [snapS2, snapS3, snapS1]) \<and>
   getToDeleteSnapshots [snapS2, snapS3, snapS1] (Some (-1)) None = ([], Inr [])"
  by (simp add: getToDeleteSnapshots_part000_def getToDeleteSnapshots_def)

text \<open>
  C5. The second variant breaks the claim on a negative keep count: on \<open>[S2, S3, S1]\<close>
  with the keep count -1 and no delete count it has no check, reaches the slice expression
  \<^verbatim>\<open>snapshotList[-1:]\<close> and panics, with no error logged, where the claim, and
  \<^verbatim>\<open>services/snapshots.go\<close> on the same input, give the empty slice and one logged error.
\<close>

theorem getToDeleteSnapshots_part000_negative_keepCount_panics:
  "getToDeleteSnapshots_part000 [snapS2, snapS3, snapS1] None (Some (-1)) =
     ([], Inl SliceBoundsOutOfRange) \<and>
   getToDeleteSnapshots [snapS2, snapS3, snapS1] None (Some (-1)) =
     ([Log ErrorLevel ''Keep count must be greater than 0'' []], Inr [])"
  by (simp add: getToDeleteSnapshots_part000_def getToDeleteSnapshots_def slice_from_def)




section \<open>Properties of the ordering policy\<close>

lemma set_insertLess: "set (insertLess lt x ys) = insert x (set ys)"
  by (induction ys) auto

lemma mset_insertLess: "mset (insertLess lt x ys) = add_mset x (mset ys)"
  by (induction ys) auto

lemma mset_fold_insertLess: "mset (fold (insertLess lt) xs acc) = mset xs + mset acc"
  by (induction xs arbitrary: acc) (auto simp: mset_insertLess)

lemma sorted_insertLess:
  assumes asym: "\<And>a b. lt a b \<Longrightarrow> \<not> lt b a"
    and ntrans: "\<And>a b c. \<not> lt a b \<Longrightarrow> \<not> lt b c \<Longrightarrow> \<not> lt a c"
    and srt: "sorted_wrt (\<lambda>a b. \<not> lt a b) ys"
  shows "sorted_wrt (\<lambda>a b. \<not> lt a b) (insertLess lt x ys)"
  using srt
proof (induction ys)
  case Nil
  then show ?case by simp
next
  case (Cons y ys)
  show ?case
  proof (cases "lt x y")
    case True
    then have "\<not> lt y x" by (rule asym)
    with Cons True show ?thesis by (auto simp: set_insertLess)
  next
    case False
    have "\<not> lt x z" if "z \<in> set ys" for z
      using Cons.prems that False ntrans by auto
    with Cons.prems False show ?thesis by auto
  qed
qed

lemma sorted_fold_insertLess:
  assumes asym: "\<And>a b. lt a b \<Longrightarrow> \<not> lt b a"
    and ntrans: "\<And>a b c. \<not> lt a b \<Longrightarrow> \<not> lt b c \<Longrightarrow> \<not> lt a c"
  shows "sorted_wrt (\<lambda>a b. \<not> lt a b) acc \<Longrightarrow>
         sorted_wrt (\<lambda>a b. \<not> lt a b) (fold (insertLess lt) xs acc)"
proof (induction xs arbitrary: acc)
  case Nil
  then show ?case by simp
next
  case (Cons x xs)
  have "sorted_wrt (\<lambda>a b. \<not> lt a b) (insertLess lt x acc)"
    using asym ntrans Cons.prems by (rule sorted_insertLess)
  then show ?case using Cons.IH by simp
qed

lemma lessByCreatedTime_asym: "lessByCreatedTime order a b \<Longrightarrow> \<not> lessByCreatedTime order b a"
  by (auto simp: lessByCreatedTime_def Let_def split: option.splits if_splits)

lemma lessByCreatedTime_ntrans:
  "\<not> lessByCreatedTime order a b \<Longrightarrow> \<not> lessByCreatedTime order b c \<Longrightarrow>
   \<not> lessByCreatedTime order a c"
  by (auto simp: lessByCreatedTime_def Let_def split: option.splits if_splits)

lemma insertionSortLessFunc_result:
  "sort_Slice_result (lessByCreatedTime order) xs
     (insertionSortLessFunc (lessByCreatedTime order) xs)"
proof -
  let ?lt = "lessByCreatedTime order"
  have "sorted_wrt (\<lambda>a b. \<not> ?lt a b) (fold (insertLess ?lt) xs [])"
    by (rule sorted_fold_insertLess) (auto dest: lessByCreatedTime_asym lessByCreatedTime_ntrans)
  then have "sorted_wrt (\<lambda>a b. \<not> ?lt b a) (rev (fold (insertLess ?lt) xs []))"
    by (simp add: sorted_wrt_rev)
  then show ?thesis
    by (simp add: sort_Slice_result_def insertionSortLessFunc_def mset_fold_insertLess)
qed

text \<open>
  On at most twelve elements the quicksort is not reached: the result is that of the
  insertion sort, whatever \<open>pdqsort\<close> is.
\<close>

lemma sort_Slice_upto_12:
  "length xs \<le> 12 \<Longrightarrow> sort_Slice pdqsort lt xs = insertionSortLessFunc lt xs"
  by (simp add: sort_Slice_def)

lemma sort_Slice_part000_upto_12:
  "length xs \<le> 12 \<Longrightarrow> sort_Slice_part000 pdqsort lt xs = insertionSort_part000 lt [] xs"
  by (simp add: sort_Slice_part000_def)

text \<open>
  With a quicksort that keeps the library's promise, what \<^verbatim>\<open>sortByCreatedTime\<close> returns is
  a result in the sense of \<open>sort_Slice_result\<close>, at every length.
\<close>

lemma sortByCreatedTime_result:
  assumes "\<And>ord ys. sort_Slice_result (lessByCreatedTime ord) ys (pdqsort (lessByCreatedTime ord) ys)"
  shows "sort_Slice_result (lessByCreatedTime order) xs (sortByCreatedTime pdqsort xs order)"
  using assms insertionSortLessFunc_result
  by (simp add: sortByCreatedTime_def sort_Slice_def)

lemma lessByCreatedTime_missing_last:
  "StartTime a \<noteq> None \<Longrightarrow> StartTime b = None \<Longrightarrow> lessByCreatedTime order a b"
  by (auto simp: lessByCreatedTime_def Let_def)

lemma lessByCreatedTime_both:
  "StartTime a = Some ta \<Longrightarrow> StartTime b = Some tb \<Longrightarrow>
   lessByCreatedTime order a b = (if order = ''desc'' then tb < ta else ta < tb)"
  by (auto simp: lessByCreatedTime_def Let_def)

lemma lessByCreatedTime_part000_eq:
  "lessByCreatedTime_part000 order a b =
     (if hasStartTime a \<and> hasStartTime b then Inr (lessByCreatedTime order a b)
      else Inl NilPointerDereference)"
  by (auto simp: lessByCreatedTime_part000_def lessByCreatedTime_def hasStartTime_def Let_def
      split: option.splits)

lemma sort_desc_example:
  "insertionSortLessFunc (lessByCreatedTime ''desc'') [snapS1, snapS5, snapS2, snapS3] =
     [snapS1, snapS3, snapS2, snapS5]"
  by (simp add: insertionSortLessFunc_def lessByCreatedTime_def snaps)

lemma sort_asc_example:
  "insertionSortLessFunc (lessByCreatedTime ''asc'') [snapS1, snapS5, snapS2, snapS3] =
     [snapS2, snapS3, snapS1, snapS5]"
  by (simp add: insertionSortLessFunc_def lessByCreatedTime_def snaps)

text \<open>
  In every result of \<^verbatim>\<open>sort.Slice\<close> under the closure of \<^verbatim>\<open>services/snapshots.go\<close>, for
  either direction: a record without a creation time stands after every record that has
  one; and of two records with creation times, the earlier one stands first when ascending
  and the later one stands first when descending.
\<close>

lemma sort_Slice_result_order:
  assumes r: "sort_Slice_result (lessByCreatedTime order) xs ys"
  shows "\<forall>i j. i < length ys \<and> j < length ys \<and>
             StartTime (ys ! i) \<noteq> None \<and> StartTime (ys ! j) = None \<longrightarrow> i < j"
    and "\<forall>i j ti tj. i < length ys \<and> j < length ys \<and>
             StartTime (ys ! i) = Some ti \<and> StartTime (ys ! j) = Some tj \<and>
             (if order = ''desc'' then tj < ti else ti < tj) \<longrightarrow> i < j"
proof -
  from r have s: "sorted_wrt (\<lambda>a b. \<not> lessByCreatedTime order b a) ys"
    by (simp add: sort_Slice_result_def)
  have inv: "i < j" if "i < length ys" "j < length ys" "i \<noteq> j"
    "lessByCreatedTime order (ys ! i) (ys ! j)" for i j
  proof (rule ccontr)
    assume "\<not> i < j"
    with that have "j < i" by simp
    with s that have "\<not> lessByCreatedTime order (ys ! i) (ys ! j)"
      by (simp add: sorted_wrt_iff_nth_less)
    with that show False by simp
  qed
  show "\<forall>i j. i < length ys \<and> j < length ys \<and>
             StartTime (ys ! i) \<noteq> None \<and> StartTime (ys ! j) = None \<longrightarrow> i < j"
  proof (intro allI impI)
    fix i j
    assume h: "i < length ys \<and> j < length ys \<and>
             StartTime (ys ! i) \<noteq> None \<and> StartTime (ys ! j) = None"
    then have "lessByCreatedTime order (ys ! i) (ys ! j)"
      by (simp add: lessByCreatedTime_missing_last)
    moreover from h have "i \<noteq> j" by auto
    ultimately show "i < j" using h inv by blast
  qed
  show "\<forall>i j ti tj. i < length ys \<and> j < length ys \<and>
             StartTime (ys ! i) = Some ti \<and> StartTime (ys ! j) = Some tj \<and>
             (if order = ''desc'' then tj < ti else ti < tj) \<longrightarrow> i < j"
  proof (intro allI impI)
    fix i j ti tj
    assume h: "i < length ys \<and> j < length ys \<and>
             StartTime (ys ! i) = Some ti \<and> StartTime (ys ! j) = Some tj \<and>
             (if order = ''desc'' then tj < ti else ti < tj)"
    then have "lessByCreatedTime order (ys ! i) (ys ! j)"
      by (simp add: lessByCreatedTime_both)
    moreover from h have "i \<noteq> j" by (auto split: if_splits)
    ultimately show "i < j" using h inv by blast
  qed
qed

text \<open>
  C3. The second variant breaks the claim on a record without a creation time: its closure
  calls \<^verbatim>\<open>Before\<close> and \<^verbatim>\<open>After\<close> through the \<^verbatim>\<open>StartTime\<close> pointers with no nil check. On
  \<open>[S5, S1]\<close>, where \<open>S5\<close> has no creation time, the sort panics in either direction, where
  the claim, and \<^verbatim>\<open>services/snapshots.go\<close> on the same input, put \<open>S5\<close> last in either
  direction. Two records are sorted by the insertion sort, so the quicksort plays no part.
\<close>

theorem sortByCreatedTime_part000_missing_StartTime_panics:
  "sortByCreatedTime_part000 pdqsort0 [snapS5, snapS1] ''asc'' = Inl NilPointerDereference \<and>
   sortByCreatedTime_part000 pdqsort0 [snapS5, snapS1] ''desc'' = Inl NilPointerDereference \<and>
   sortByCreatedTime pdqsort [snapS5, snapS1] ''asc'' = [snapS1, snapS5] \<and>
   sortByCreatedTime pdqsort [snapS5, snapS1] ''desc'' = [snapS1, snapS5]"
  by (simp add: sortByCreatedTime_part000_def sort_Slice_part000_def lessByCreatedTime_part000_def
      sortByCreatedTime_def sort_Slice_def insertionSortLessFunc_def lessByCreatedTime_def
      snapS1_def snapS5_def)

lemma sorted_wrt_partition:
  assumes "sorted_wrt R ys" and "\<And>x y. R x y \<Longrightarrow> P y \<Longrightarrow> P x"
  shows "ys = filter P ys @ filter (\<lambda>y. \<not> P y) ys"
  using assms(1)
proof (induction ys)
  case Nil
  then show ?case by simp
next
  case (Cons y ys)
  show ?case
  proof (cases "P y")
    case True
    with Cons show ?thesis by simp
  next
    case False
    have "\<not> P z" if "z \<in> set ys" for z
      using Cons.prems that False assms(2) by auto
    then have "filter P ys = []" and "filter (\<lambda>y. \<not> P y) ys = ys"
      by (simp_all add: filter_empty_conv filter_id_conv)
    with False show ?thesis by simp
  qed
qed

lemma hasStartTime_down:
  "\<not> lessByCreatedTime order y x \<Longrightarrow> hasStartTime y \<Longrightarrow> hasStartTime x"
  by (auto simp: lessByCreatedTime_def hasStartTime_def Let_def split: option.splits if_splits)

lemma result_partition:
  assumes "sort_Slice_result (lessByCreatedTime order) xs ys"
  shows "ys = filter hasStartTime ys @ filter (\<lambda>y. \<not> hasStartTime y) ys"
proof (rule sorted_wrt_partition)
  show "sorted_wrt (\<lambda>a b. \<not> lessByCreatedTime order b a) ys"
    using assms by (simp add: sort_Slice_result_def)
qed (rule hasStartTime_down)

lemma result_filter_mset:
  assumes "sort_Slice_result lt xs ys"
  shows "mset (filter P ys) = mset (filter P xs)"
  using assms by (simp add: sort_Slice_result_def)

lemma result_missing_positions:
  assumes r: "sort_Slice_result (lessByCreatedTime order) xs ys" and i: "i < length xs"
  shows "StartTime (ys ! i) = None \<longleftrightarrow> length (filter hasStartTime xs) \<le> i"
proof -
  let ?t = "filter hasStartTime ys" and ?u = "filter (\<lambda>y. \<not> hasStartTime y) ys"
  have p: "ys = ?t @ ?u" using r by (rule result_partition)
  have m: "length ?t = length (filter hasStartTime xs)"
    using result_filter_mset[OF r] by (rule mset_eq_length)
  have "mset ys = mset xs" using r by (simp only: sort_Slice_result_def)
  then have n: "length ys = length xs" by (rule mset_eq_length)
  show ?thesis
  proof (cases "i < length ?t")
    case True
    then have "?t ! i \<in> set ?t" by (rule nth_mem)
    then have "hasStartTime (?t ! i)" by simp
    moreover have "ys ! i = ?t ! i" using True by (subst p) (simp add: nth_append)
    ultimately show ?thesis using True m by (simp add: hasStartTime_def)
  next
    case False
    have "length ys = length ?t + length ?u" by (subst p) simp
    with False i n have "i - length ?t < length ?u" by simp
    then have "?u ! (i - length ?t) \<in> set ?u" by (rule nth_mem)
    then have "\<not> hasStartTime (?u ! (i - length ?t))" by simp
    moreover have "ys ! i = ?u ! (i - length ?t)" using False by (subst p) (simp add: nth_append)
    ultimately show ?thesis using False m by (simp add: hasStartTime_def)
  qed
qed

lemma StartTime_timed: "hasStartTime s \<Longrightarrow> StartTime s = Some (startTimeOf s)"
  by (auto simp: hasStartTime_def startTimeOf_def)

lemma map_StartTime_timed:
  "map StartTime (filter hasStartTime ys) = map Some (map startTimeOf (filter hasStartTime ys))"
  by (simp add: StartTime_timed)

lemma timed_sorted_asc:
  assumes r: "sort_Slice_result (lessByCreatedTime order) xs ys" and o: "order \<noteq> ''desc''"
  shows "sorted (map startTimeOf (filter hasStartTime ys))"
proof -
  have "sorted_wrt (\<lambda>a b. \<not> lessByCreatedTime order b a) (filter hasStartTime ys)"
    using r by (simp add: sort_Slice_result_def sorted_wrt_filter)
  then have "sorted_wrt (\<lambda>a b. startTimeOf a \<le> startTimeOf b) (filter hasStartTime ys)"
  proof (rule sorted_wrt_mono_rel[rotated])
    fix a b
    assume "a \<in> set (filter hasStartTime ys)" "b \<in> set (filter hasStartTime ys)"
      "\<not> lessByCreatedTime order b a"
    then show "startTimeOf a \<le> startTimeOf b"
      using o by (auto simp: lessByCreatedTime_def hasStartTime_def startTimeOf_def Let_def)
  qed
  then show ?thesis by (simp add: sorted_map)
qed

lemma timed_sorted_desc:
  assumes r: "sort_Slice_result (lessByCreatedTime ''desc'') xs ys"
  shows "sorted (rev (map startTimeOf (filter hasStartTime ys)))"
proof -
  have "sorted_wrt (\<lambda>a b. \<not> lessByCreatedTime ''desc'' b a) (filter hasStartTime ys)"
    using r by (simp add: sort_Slice_result_def sorted_wrt_filter)
  then have "sorted_wrt (\<lambda>a b. startTimeOf b \<le> startTimeOf a) (filter hasStartTime ys)"
  proof (rule sorted_wrt_mono_rel[rotated])
    fix a b
    assume "a \<in> set (filter hasStartTime ys)" "b \<in> set (filter hasStartTime ys)"
      "\<not> lessByCreatedTime ''desc'' b a"
    then show "startTimeOf b \<le> startTimeOf a"
      by (auto simp: lessByCreatedTime_def hasStartTime_def startTimeOf_def Let_def)
  qed
  then show ?thesis by (simp add: sorted_wrt_rev sorted_wrt_map)
qed

lemma timed_times_reverse:
  assumes a: "sort_Slice_result (lessByCreatedTime order) xs asc" and o: "order \<noteq> ''desc''"
    and d: "sort_Slice_result (lessByCreatedTime ''desc'') xs desc"
  shows "map startTimeOf (filter hasStartTime desc) = rev (map startTimeOf (filter hasStartTime asc))"
proof -
  let ?L = "map startTimeOf (filter hasStartTime xs)"
  have "mset (map startTimeOf (filter hasStartTime asc)) = mset ?L"
    using a by (simp only: mset_map result_filter_mset)
  then have 1: "sort ?L = map startTimeOf (filter hasStartTime asc)"
    using timed_sorted_asc[OF a o] by (rule properties_for_sort)
  have "mset (rev (map startTimeOf (filter hasStartTime desc))) = mset ?L"
    using d by (simp only: mset_rev mset_map result_filter_mset)
  then have 2: "sort ?L = rev (map startTimeOf (filter hasStartTime desc))"
    using timed_sorted_desc[OF d] by (rule properties_for_sort)
  from 1 2 have "rev (map startTimeOf (filter hasStartTime desc)) = map startTimeOf (filter hasStartTime asc)"
    by simp
  then show ?thesis by (simp add: rev_swap)
qed

text \<open>
  C8, as the code has it. Let \<open>asc\<close> and \<open>desc\<close> be results of sorting the same list
  ascending and descending. The records without a creation time occupy the same positions
  in both, namely the positions from the number of records with a creation time onwards.
  The creation times of the records that have one, read along \<open>desc\<close>, are the reverse of
  those read along \<open>asc\<close>. When no two of these records share a creation time, the
  records with creation times in \<open>desc\<close> are exactly the reverse of those in \<open>asc\<close>.
\<close>

theorem sort_asc_desc_reverse:
  assumes a: "sort_Slice_result (lessByCreatedTime order) xs asc" and o: "order \<noteq> ''desc''"
    and d: "sort_Slice_result (lessByCreatedTime ''desc'') xs desc"
  shows "(\<forall>i < length xs. StartTime (asc ! i) = None \<longleftrightarrow> StartTime (desc ! i) = None) \<and>
         (\<forall>i < length xs. StartTime (asc ! i) = None \<longleftrightarrow> length (filter hasStartTime xs) \<le> i) \<and>
         map StartTime (filter hasStartTime desc) = rev (map StartTime (filter hasStartTime asc)) \<and>
         (distinct (map StartTime (filter hasStartTime xs)) \<longrightarrow>
            filter hasStartTime desc = rev (filter hasStartTime asc))"
proof (intro conjI allI impI)
  fix i assume "i < length xs"
  then show "StartTime (asc ! i) = None \<longleftrightarrow> StartTime (desc ! i) = None"
    using result_missing_positions[OF a] result_missing_positions[OF d] by simp
next
  fix i assume "i < length xs"
  then show "StartTime (asc ! i) = None \<longleftrightarrow> length (filter hasStartTime xs) \<le> i"
    using result_missing_positions[OF a] by simp
next
  show m: "map StartTime (filter hasStartTime desc) = rev (map StartTime (filter hasStartTime asc))"
    using timed_times_reverse[OF a o d] by (simp only: map_StartTime_timed rev_map)
  assume dist: "distinct (map StartTime (filter hasStartTime xs))"
  have sa: "set (filter hasStartTime asc) = set (filter hasStartTime xs)"
    using result_filter_mset[OF a] by (rule mset_eq_setD)
  have sd: "set (filter hasStartTime desc) = set (filter hasStartTime xs)"
    using result_filter_mset[OF d] by (rule mset_eq_setD)
  from dist have "inj_on StartTime (set (filter hasStartTime xs))"
    by (simp add: distinct_map)
  then have "inj_on StartTime (set (filter hasStartTime desc) \<union> set (rev (filter hasStartTime asc)))"
    using sa sd by simp
  moreover from m have "map StartTime (filter hasStartTime desc) = map StartTime (rev (filter hasStartTime asc))"
    by (simp add: rev_map)
  ultimately show "filter hasStartTime desc = rev (filter hasStartTime asc)"
    by (simp only: inj_on_map_eq_map)
qed

text \<open>
  C8 as amended on \<open>[S1, S5, S2, S3]\<close>, whose creation times are distinct.
\<close>

theorem sort_asc_desc_reverse_witness:
  "sort_Slice_result (lessByCreatedTime ''asc'') [snapS1, snapS5, snapS2, snapS3]
     [snapS2, snapS3, snapS1, snapS5] \<and>
   ''asc'' \<noteq> ''desc'' \<and>
   sort_Slice_result (lessByCreatedTime ''desc'') [snapS1, snapS5, snapS2, snapS3]
     [snapS1, snapS3, snapS2, snapS5] \<and>
   distinct (map StartTime (filter hasStartTime [snapS1, snapS5, snapS2, snapS3])) \<and>
   filter hasStartTime [snapS1, snapS3, snapS2, snapS5] =
     rev (filter hasStartTime [snapS2, snapS3, snapS1, snapS5]) \<and>
   StartTime ([snapS2, snapS3, snapS1, snapS5] ! 3) = None \<and>
   StartTime ([snapS1, snapS3, snapS2, snapS5] ! 3) = None"
proof -
  have a: "sort_Slice_result (lessByCreatedTime ''asc'') [snapS1, snapS5, snapS2, snapS3]
     [snapS2, snapS3, snapS1, snapS5]"
    using insertionSortLessFunc_result[of "''asc''" "[snapS1, snapS5, snapS2, snapS3]"]
    by (simp only: sort_asc_example)
  have o: "''asc'' \<noteq> ''desc''" by simp
  have d: "sort_Slice_result (lessByCreatedTime ''desc'') [snapS1, snapS5, snapS2, snapS3]
     [snapS1, snapS3, snapS2, snapS5]"
    using insertionSortLessFunc_result[of "''desc''" "[snapS1, snapS5, snapS2, snapS3]"]
    by (simp only: sort_desc_example)
  have di: "distinct (map StartTime (filter hasStartTime [snapS1, snapS5, snapS2, snapS3]))"
    by (simp add: hasStartTime_def snaps)
  have n: "StartTime ([snapS2, snapS3, snapS1, snapS5] ! 3) = None"
    by (simp add: snaps)
  note t = sort_asc_desc_reverse[OF a o d]
  from t di have "filter hasStartTime [snapS1, snapS3, snapS2, snapS5] =
     rev (filter hasStartTime [snapS2, snapS3, snapS1, snapS5])" by blast
  moreover from t n have "StartTime ([snapS1, snapS3, snapS2, snapS5] ! 3) = None"
    by simp
  ultimately show ?thesis using a o d di n by blast
qed

text \<open>
  C8 as stated fails: \<open>S2\<close> and \<open>S4\<close> have the same creation time and the comparator
  orders neither before the other in either direction. Two records are sorted by the
  insertion sort (the quicksort, here given as the insertion sort too, is not reached),
  which leaves \<open>[S2, S4]\<close> as it is in both directions; the reverse of the ascending
  result is \<open>[S4, S2]\<close>.
\<close>

theorem sort_reverse_counterexample:
  "filter hasStartTime (rev (sortByCreatedTime insertionSortLessFunc [snapS2, snapS4] ''asc'')) \<noteq>
   filter hasStartTime (sortByCreatedTime insertionSortLessFunc [snapS2, snapS4] ''desc'')"
  by (simp add: sortByCreatedTime_def sort_Slice_def insertionSortLessFunc_def
      lessByCreatedTime_def hasStartTime_def snaps)

section \<open>Properties of the cleanup orchestrator\<close>

lemma callDescribeSnapshots_error:
  "DescribeSnapshots c name values = Inl e \<Longrightarrow>
   callDescribeSnapshots c name values = (None, Some e)"
  by (simp add: callDescribeSnapshots_def)

lemma callDescribeSnapshots_output:
  "DescribeSnapshots c name values = Inr snapshots \<Longrightarrow>
   callDescribeSnapshots c name values = (Some snapshots, None)"
  by (simp add: callDescribeSnapshots_def)

lemma deleteCalls_append: "deleteCalls (a @ b) = deleteCalls a @ deleteCalls b"
  by (simp add: deleteCalls_def)

lemma deleteCalls_Logged_Cons: "deleteCalls (Logged l # evs) = deleteCalls evs"
  by (simp add: deleteCalls_def)

lemma deleteCalls_Nil: "deleteCalls [] = []"
  by (simp add: deleteCalls_def)

lemma deleteCalls_map_Logged: "deleteCalls (map Logged lg) = []"
  by (induction lg) (simp_all add: deleteCalls_Nil deleteCalls_Logged_Cons)

text \<open>
  \<^verbatim>\<open>services/snapshots.go\<close> on an unknown sort key and a non-empty inventory: one error
  line, a normal return, no call of the executor.
\<close>

lemma CleanupSnapshots_unknown_sortBy:
  assumes "DescribeSnapshots c (''tag:'' @ tagKey) [tagValue] = Inr snapshots"
    and "snapshots \<noteq> []"
    and "sortBy \<noteq> ''created_time_asc''" and "sortBy \<noteq> ''created_time_desc''"
  shows "CleanupSnapshots pdqsort c tagKey tagValue deleteCount keepCount sortBy =
           ([Logged (Log ErrorLevel ''Not support that sortBy!'' [])], Returned)"
  using assms by (simp add: CleanupSnapshots_def callDescribeSnapshots_output)

lemma CleanupSnapshots_unknown_sortBy_no_deletion:
  assumes "DescribeSnapshots c (''tag:'' @ tagKey) [tagValue] = Inr snapshots"
    and "snapshots \<noteq> []"
    and "sortBy \<noteq> ''created_time_asc''" and "sortBy \<noteq> ''created_time_desc''"
  shows "deleteCalls (fst (CleanupSnapshots pdqsort c tagKey tagValue deleteCount keepCount sortBy)) = []"
  using CleanupSnapshots_unknown_sortBy[OF assms]
  by (simp add: deleteCalls_Logged_Cons deleteCalls_Nil)

lemma CleanupSnapshots_empty:
  assumes "DescribeSnapshots c (''tag:'' @ tagKey) [tagValue] = Inr []"
  shows "CleanupSnapshots pdqsort c tagKey tagValue deleteCount keepCount sortBy =
           ([Logged (Log InfoLevel ''No snapshots found for given tag filter'' [])], Returned)"
  using assms by (simp add: CleanupSnapshots_def callDescribeSnapshots_output)

text \<open>
  The second variant: it never calls the executor, and it exits with status 1 on an unknown
  sort key.
\<close>

lemma printSnapShotsList_part000_no_call:
  "deleteCalls (fst (printSnapShotsList_part000 snaps message)) = []"
  by (induction snaps)
    (auto simp: deleteCalls_Nil deleteCalls_Logged_Cons split: option.splits prod.splits)

lemma deleteEach_part000_no_call: "deleteEach_part000 c snaps = ([], Returned)"
  by (induction snaps) (simp_all add: deleteSnapShot_part000_def)

lemma selectAndDelete_part000_no_call:
  "deleteCalls (fst (selectAndDelete_part000 c xs d k)) = []"
proof -
  have "deleteCalls ev2 = []" if "printSnapShotsList_part000 ys m = (ev2, p)" for ys m ev2 p
    using printSnapShotsList_part000_no_call[of ys m] that by simp
  then show ?thesis
    by (auto simp: selectAndDelete_part000_def deleteEach_part000_no_call deleteCalls_append
        deleteCalls_Logged_Cons deleteCalls_map_Logged
        split: prod.splits sum.splits option.splits)
qed

lemma CleanupSnapshots_part000_unknown_sortBy:
  assumes "DescribeSnapshots c (''tag:'' @ tagKey) [tagValue] = Inr snapshots"
    and "snapshots \<noteq> []"
    and "sortBy \<noteq> ''created_time_asc''" and "sortBy \<noteq> ''created_time_desc''"
  shows "CleanupSnapshots_part000 pdqsort c tagKey tagValue deleteCount keepCount sortBy =
           ([Logged (Log ErrorLevel ''Not support that sortBy!'' [])], Exited 1)"
  using assms by (simp add: CleanupSnapshots_part000_def callDescribeSnapshots_output)

text \<open>
  C6. With a non-empty inventory and the sort key \<^verbatim>\<open>created_time\<close> (what \<^verbatim>\<open>main\<close> puts
  in place of an empty \<^verbatim>\<open>SORT_BY\<close>, and not one of the two keys the switch knows) the
  run logs the error and returns before any selection or deletion; the call returns
  normally, so the process exits with status 0, the status of a run that found nothing
  to do.
\<close>

theorem CleanupSnapshots_unknown_sortBy_exit_status:
  "CleanupSnapshots pdqsort inventoryClient ''Environment'' ''dev'' (Some 1) None ''created_time'' =
     ([Logged (Log ErrorLevel ''Not support that sortBy!'' [])], Returned) \<and>
   exit_status (snd (CleanupSnapshots pdqsort inventoryClient ''Environment'' ''dev'' (Some 1) None
                        ''created_time'')) = 0 \<and>
   exit_status (snd (CleanupSnapshots pdqsort emptyClient ''Environment'' ''dev'' (Some 1) None
                        ''created_time_asc'')) = 0"
  by (simp add: CleanupSnapshots_def callDescribeSnapshots_def inventoryClient_def
      emptyClient_def snaps)

text \<open>
  C7. In a run whose fetch returns an error, both variants log the error and then read
  \<^verbatim>\<open>out.Snapshots\<close> through the nil output: the run ends there in a panic. Whatever the
  counts, the sort key and the quicksort are, the whole trace of the run is the one error
  line: nothing is sorted, nothing is selected, the executor is not called, and the
  process exits with the status 2 of an unrecovered panic.
\<close>

theorem CleanupSnapshots_fetch_error_fatal:
  assumes "DescribeSnapshots c (''tag:'' @ tagKey) [tagValue] = Inl e"
  shows "CleanupSnapshots pdqsort c tagKey tagValue deleteCount keepCount sortBy =
           ([Logged (Log ErrorLevel ''Error in cleanupSnapshots: '' [ErrArg e])],
            Panicked NilPointerDereference) \<and>
         CleanupSnapshots_part000 pdqsort0 c tagKey tagValue deleteCount keepCount sortBy =
           ([Logged (Log ErrorLevel ''Error in cleanupSnapshots: '' [ErrArg e])],
            Panicked NilPointerDereference) \<and>
         deleteCalls (fst (CleanupSnapshots pdqsort c tagKey tagValue deleteCount keepCount
                             sortBy)) = [] \<and>
         deleteCalls (fst (CleanupSnapshots_part000 pdqsort0 c tagKey tagValue deleteCount
                             keepCount sortBy)) = [] \<and>
         exit_status (snd (CleanupSnapshots pdqsort c tagKey tagValue deleteCount keepCount
                             sortBy)) = 2 \<and>
         exit_status (snd (CleanupSnapshots_part000 pdqsort0 c tagKey tagValue deleteCount
                             keepCount sortBy)) = 2"
proof -
  have f: "callDescribeSnapshots c (''tag:'' @ tagKey) [tagValue] = (None, Some e)"
    using assms by (rule callDescribeSnapshots_error)
  have 1: "CleanupSnapshots pdqsort c tagKey tagValue deleteCount keepCount sortBy =
           ([Logged (Log ErrorLevel ''Error in cleanupSnapshots: '' [ErrArg e])],
            Panicked NilPointerDereference)"
    unfolding CleanupSnapshots_def f by simp
  have 2: "CleanupSnapshots_part000 pdqsort0 c tagKey tagValue deleteCount keepCount sortBy =
           ([Logged (Log ErrorLevel ''Error in cleanupSnapshots: '' [ErrArg e])],
            Panicked NilPointerDereference)"
    unfolding CleanupSnapshots_part000_def f by simp
  show ?thesis
    unfolding 1 2 by (simp add: deleteCalls_Logged_Cons deleteCalls_Nil)
qed

text \<open>
  C7 on the client whose fetch fails, with the keep count 1 and a known sort key.
\<close>

theorem CleanupSnapshots_fetch_error_fatal_witness:
  "DescribeSnapshots failedFetchClient (''tag:'' @ ''Environment'') [''dev''] = Inl ''RequestError'' \<and>
   CleanupSnapshots insertionSortLessFunc failedFetchClient ''Environment'' ''dev'' None (Some 1)
       ''created_time_asc'' =
     ([Logged (Log ErrorLevel ''Error in cleanupSnapshots: '' [ErrArg ''RequestError''])],
      Panicked NilPointerDereference) \<and>
   CleanupSnapshots_part000 (\<lambda>lt. insertionSort_part000 lt []) failedFetchClient
       ''Environment'' ''dev'' None (Some 1) ''created_time_asc'' =
     ([Logged (Log ErrorLevel ''Error in cleanupSnapshots: '' [ErrArg ''RequestError''])],
      Panicked NilPointerDereference)"
proof -
  have h: "DescribeSnapshots failedFetchClient (''tag:'' @ ''Environment'') [''dev''] =
      Inl ''RequestError''"
    by (simp add: failedFetchClient_def)
  show ?thesis
    using h CleanupSnapshots_fetch_error_fatal[OF h, of insertionSortLessFunc None "Some 1"
        "''created_time_asc''" "\<lambda>lt. insertionSort_part000 lt []"]
    by simp
qed

end
